theory Spec2Isabelle
  imports Complex_Main
begin

section \<open>Orbit command: telemetry record, burn scheduler and propagation loop\<close>

text \<open>
  The development embeds \<^verbatim>\<open>orbit-command/app.py\<close> (the command handler) and
  \<^verbatim>\<open>orbit-command/orbit_simulator.py\<close> (the propagation loop). Both programs
  share one JSON document, \<^verbatim>\<open>telemetry_data.json\<close>, which each reads and
  overwrites as a whole.

  The value of a Python float is idealised as a \<^typ>\<open>real\<close>: \<^verbatim>\<open>math.hypot\<close> is the
  Euclidean norm, \<^verbatim>\<open>math.pi\<close> is \<^term>\<open>pi\<close>, and a result inside the range of
  the doubles is not rounded; infinities and NaN are not values. What the range of
  the doubles does to the control flow is kept: \<^verbatim>\<open>float\<close> of an integer and the
  power \<^verbatim>\<open>**\<close> raise OverflowError when the result is too large for a double, and
  a power too small for a double is 0.0. Every exception the interpreter can raise
  on the modelled values (a missing key, a division by zero, an overflow, a failed
  conversion, a failed file operation) is a value of \<open>py_error\<close>.
\<close>

subsection \<open>Python values and errors\<close>

datatype py_error =
    KeyError string
  | ZeroDivisionError
  | OverflowError
  | TypeError
  | ValueError
  | OSError

text \<open>\<^verbatim>\<open>d.get(key, default)\<close> on an optional field.\<close>

definition get_or :: "'a option \<Rightarrow> 'a \<Rightarrow> 'a" where
  "get_or field dflt = (case field of None \<Rightarrow> dflt | Some v \<Rightarrow> v)"

text \<open>\<^verbatim>\<open>d[key]\<close> on an optional field: a missing key raises.\<close>

definition subscript :: "string \<Rightarrow> 'a option \<Rightarrow> py_error + 'a" where
  "subscript key field = (case field of None \<Rightarrow> Inl (KeyError key) | Some v \<Rightarrow> Inr v)"

text \<open>True division \<^verbatim>\<open>a / b\<close> raises on a zero divisor.\<close>

definition py_truediv :: "real \<Rightarrow> real \<Rightarrow> py_error + real" where
  "py_truediv a b = (if b = 0 then Inl ZeroDivisionError else Inr (a / b))"

text \<open>\<^verbatim>\<open>a % b\<close>: the result takes the sign of the divisor.\<close>

definition py_mod :: "real \<Rightarrow> real \<Rightarrow> py_error + real" where
  "py_mod a b =
     (if b = 0 then Inl ZeroDivisionError else Inr (a - b * of_int \<lfloor>a / b\<rfloor>))"

text \<open>
  The range of the doubles under rounding to nearest: a magnitude of at least
  \<open>2^1024 - 2^970\<close> rounds beyond the largest double, a magnitude of at most
  \<open>2^-1075\<close> rounds to zero.
\<close>

definition too_large :: "real \<Rightarrow> bool" where
  "too_large r = (2 ^ 1024 - 2 ^ 970 \<le> \<bar>r\<bar>)"

definition too_small :: "real \<Rightarrow> bool" where
  "too_small r = (\<bar>r\<bar> \<le> 1 / 2 ^ 1075)"

text \<open>
  \<^verbatim>\<open>x ** n\<close> for a float and a small positive integer: OverflowError when the power
  is too large for a double, 0.0 when it is too small.
\<close>

definition py_pow :: "real \<Rightarrow> nat \<Rightarrow> py_error + real" where
  "py_pow x n =
     (if too_large (x ^ n) then Inl OverflowError
      else if too_small (x ^ n) then Inr 0
      else Inr (x ^ n))"

definition hypot :: "real \<Rightarrow> real \<Rightarrow> real" where
  "hypot x y = sqrt (x\<^sup>2 + y\<^sup>2)"

text \<open>\<^verbatim>\<open>round(x, ndigits)\<close>: to the nearest multiple of \<open>10^-ndigits\<close>, ties to even.\<close>

definition round_half_even :: "real \<Rightarrow> int" where
  "round_half_even x =
     (let f = \<lfloor>x\<rfloor>; d = x - of_int f
      in if d < 1 / 2 then f
         else if 1 / 2 < d then f + 1
         else if even f then f else f + 1)"

definition py_round :: "real \<Rightarrow> nat \<Rightarrow> real" where
  "py_round x ndigits = of_int (round_half_even (x * 10 ^ ndigits)) / 10 ^ ndigits"

text \<open>\<^verbatim>\<open>str(n)\<close> for an integer, as an f-string formats it.\<close>

definition digit_char :: "nat \<Rightarrow> char" where
  "digit_char d = ''0123456789'' ! d"

function str_nat :: "nat \<Rightarrow> string" where
  "str_nat n = (if n < 10 then [digit_char n] else str_nat (n div 10) @ [digit_char (n mod 10)])"
  by pat_completeness auto
termination
  by (relation "measure (\<lambda>n. n)") auto

definition str_int :: "int \<Rightarrow> string" where
  "str_int i = (if i < 0 then CHR ''-'' # str_nat (nat (- i)) else str_nat (nat i))"

subsection \<open>The telemetry record\<close>

text \<open>
  The JSON document is a dictionary; every key either is there or is not. The
  burn fields are installed by the scheduler and popped by the simulator, the other
  keys are written by both programs.
\<close>

record telemetry =
  vx :: "real option"
  vy :: "real option"
  radius :: "real option"
  altitude :: "real option"
  angle :: "real option"
  status :: "string option"
  burn_rate_x :: "real option"
  burn_rate_y :: "real option"
  burn_remaining :: "int option"

definition GM :: real where
  "GM = 398600.4418"

definition EARTH_R :: real where
  "EARTH_R = 6371"

text \<open>The document \<^verbatim>\<open>app.py\<close> creates when the file does not exist.\<close>

definition initial :: telemetry where
  "initial =
     \<lparr> vx = Some 7.5, vy = Some 0.0, radius = Some (EARTH_R + 500),
       altitude = Some (EARTH_R + 500 - EARTH_R), angle = Some 0.0,
       status = Some ''Idle'', burn_rate_x = None, burn_rate_y = None,
       burn_remaining = None \<rparr>"

text \<open>\<^verbatim>\<open>f"Burning: {n}s remaining"\<close>\<close>

definition burning_status :: "int \<Rightarrow> string" where
  "burning_status n = ''Burning: '' @ str_int n @ ''s remaining''"

text \<open>A status of the Burning shape: the fixed text around the number.\<close>

definition is_burning :: "string option \<Rightarrow> bool" where
  "is_burning st =
     (case st of None \<Rightarrow> False
      | Some t \<Rightarrow> take 9 t = ''Burning: '' \<and> drop (length t - 11) t = ''s remaining'')"

subsection \<open>One propagation tick (\<^verbatim>\<open>orbit_simulator.py\<close>, lines 19 to 39)\<close>

text \<open>Apply burn if active.\<close>

definition burn_integration :: "telemetry \<Rightarrow> py_error + telemetry" where
  "burn_integration tm =
     (if 0 < get_or (burn_remaining tm) 0 then
        (case subscript ''vx'' (vx tm) of Inl e \<Rightarrow> Inl e | Inr x \<Rightarrow>
         case subscript ''burn_rate_x'' (burn_rate_x tm) of Inl e \<Rightarrow> Inl e | Inr bx \<Rightarrow>
         case subscript ''vy'' (vy tm) of Inl e \<Rightarrow> Inl e | Inr y \<Rightarrow>
         case subscript ''burn_rate_y'' (burn_rate_y tm) of Inl e \<Rightarrow> Inl e | Inr by \<Rightarrow>
         case subscript ''burn_remaining'' (burn_remaining tm) of Inl e \<Rightarrow> Inl e | Inr n \<Rightarrow>
           let tm1 = tm\<lparr> vx := Some (x + bx), vy := Some (y + by),
                          burn_remaining := Some (n - 1),
                          status := Some (burning_status (n - 1)) \<rparr>
           in if n - 1 \<le> 0
              then Inr (tm1\<lparr> burn_rate_x := None, burn_rate_y := None,
                             burn_remaining := None, status := Some ''Stable'' \<rparr>)
              else Inr tm1)
      else Inr tm)"

text \<open>Orbital dynamics and angular motion.\<close>

definition orbital_dynamics :: "telemetry \<Rightarrow> py_error + telemetry" where
  "orbital_dynamics tm =
     (case subscript ''vx'' (vx tm) of Inl e \<Rightarrow> Inl e | Inr x \<Rightarrow>
      case subscript ''vy'' (vy tm) of Inl e \<Rightarrow> Inl e | Inr y \<Rightarrow>
        let speed = hypot x y in
        case (if 0 < speed
              then (case py_pow speed 2 of Inl e \<Rightarrow> Inl e | Inr sq \<Rightarrow>
                    case py_truediv GM sq of Inl e \<Rightarrow> Inl e
                    | Inr r \<Rightarrow> Inr (tm\<lparr> radius := Some r, altitude := Some (r - EARTH_R) \<rparr>))
              else Inr tm) of Inl e \<Rightarrow> Inl e | Inr tm2 \<Rightarrow>
        case subscript ''radius'' (radius tm2) of Inl e \<Rightarrow> Inl e | Inr r \<Rightarrow>
        case py_truediv speed r of Inl e \<Rightarrow> Inl e | Inr q \<Rightarrow>
          let dtheta = q * (180 / pi) in
          case py_mod (get_or (angle tm2) 0 + dtheta) 360 of Inl e \<Rightarrow> Inl e
          | Inr a \<Rightarrow> Inr (tm2\<lparr> angle := Some a \<rparr>))"

definition tick :: "telemetry \<Rightarrow> py_error + telemetry" where
  "tick tm = (case burn_integration tm of Inl e \<Rightarrow> Inl e | Inr tm1 \<Rightarrow> orbital_dynamics tm1)"

text \<open>\<open>n\<close> ticks in a row; the loop dies at the first exception.\<close>

fun ticks :: "nat \<Rightarrow> telemetry \<Rightarrow> py_error + telemetry" where
  "ticks 0 tm = Inr tm"
| "ticks (Suc n) tm = (case tick tm of Inl e \<Rightarrow> Inl e | Inr tm' \<Rightarrow> ticks n tm')"

subsection \<open>The angle feed (\<^verbatim>\<open>orbit_simulator.py\<close>, lines 41 to 61)\<close>

record feed_entry =
  timestamp :: int
  feed_angle :: real

text \<open>\<^verbatim>\<open>xs[-k:]\<close>: the last \<open>k\<close> elements, the whole list when it is shorter.\<close>

definition last_n :: "nat \<Rightarrow> 'a list \<Rightarrow> 'a list" where
  "last_n k xs = drop (length xs - k) xs"

text \<open>Append one sample and keep the last 1000 entries.\<close>

definition feed_append :: "feed_entry list \<Rightarrow> feed_entry \<Rightarrow> feed_entry list" where
  "feed_append angle_log entry = last_n 1000 (angle_log @ [entry])"

text \<open>The sample of one tick: \<^verbatim>\<open>int(time.time() * 1000)\<close> and the rounded angle.\<close>

definition feed_sample :: "int \<Rightarrow> telemetry \<Rightarrow> feed_entry" where
  "feed_sample now_ms tm =
     \<lparr> timestamp = now_ms, feed_angle = py_round (get_or (angle tm) 0) 4 \<rparr>"

subsection \<open>The files both programs work on\<close>

text \<open>
  A file that is missing or does not parse is \<open>None\<close>. The command log is the
  list of its lines, one audit record per accepted command; its timestamp is the
  text of \<^verbatim>\<open>datetime.now().isoformat()\<close>.
\<close>

record audit_record =
  logged_at :: string
  logged_dvx :: real
  logged_dvy :: real
  logged_duration :: int

record world =
  telemetry_file :: "telemetry option"
  angle_feed_file :: "feed_entry list option"
  command_log :: "audit_record list"

subsection \<open>One iteration of the simulator loop (\<^verbatim>\<open>orbit_simulator.py\<close>, lines 14 to 68)\<close>

text \<open>
  What the operating system decides in one iteration: the clock, and whether each
  of the two files can be written. A write that fails leaves the file as it was.
\<close>

record sim_host =
  now_ms :: int
  feed_write_ok :: bool
  telemetry_write_ok :: bool

text \<open>
  The result is the exception that ends the loop, if any, and the files after the
  iteration. Reading the telemetry, the tick and writing the telemetry are not
  guarded; reading and writing the feed are. The closing \<^verbatim>\<open>print\<close> subscripts
  \<^verbatim>\<open>altitude\<close>, after the telemetry has been saved.
\<close>

definition sim_iteration :: "sim_host \<Rightarrow> world \<Rightarrow> py_error option \<times> world" where
  "sim_iteration h w =
     (case telemetry_file w of None \<Rightarrow> (Some OSError, w) | Some tm0 \<Rightarrow>
      case tick tm0 of Inl e \<Rightarrow> (Some e, w) | Inr tm \<Rightarrow>
        let angle_log = (case angle_feed_file w of None \<Rightarrow> [] | Some l \<Rightarrow> l);
            angle_log' = feed_append angle_log (feed_sample (now_ms h) tm);
            w1 = (if feed_write_ok h then w\<lparr> angle_feed_file := Some angle_log' \<rparr> else w)
        in if \<not> telemetry_write_ok h then (Some OSError, w1)
           else let w2 = w1\<lparr> telemetry_file := Some tm \<rparr>
                in (case subscript ''altitude'' (altitude tm) of
                      Inl e \<Rightarrow> (Some e, w2) | Inr _ \<Rightarrow> (None, w2)))"

subsection \<open>The command handler (\<^verbatim>\<open>app.py\<close>, \<^verbatim>\<open>send_command\<close>)\<close>

text \<open>
  The JSON value of a request field. \<^verbatim>\<open>float\<close> and \<^verbatim>\<open>int\<close> raise TypeError on
  every array and every object, so their contents are left out. \<^verbatim>\<open>float\<close> of an
  integer too large for a double raises OverflowError, which the handler does not
  catch.
\<close>

datatype jvalue = JNull | JBool bool | JInt int | JFloat real | JStr string | JArr | JObj

record request =
  req_dvx :: "jvalue option"
  req_dvy :: "jvalue option"
  req_duration :: "jvalue option"

text \<open>
  What the interpreter and the operating system supply to one call: the parsers
  behind \<^verbatim>\<open>float(str)\<close> and \<^verbatim>\<open>int(str)\<close> (\<open>None\<close> is ValueError), the clock, and
  whether each of the two files can be written.
\<close>

record cmd_host =
  parse_float :: "string \<Rightarrow> real option"
  parse_int :: "string \<Rightarrow> int option"
  now_iso :: string
  store_write_ok :: bool
  log_write_ok :: bool

definition py_float :: "(string \<Rightarrow> real option) \<Rightarrow> jvalue \<Rightarrow> py_error + real" where
  "py_float parse v =
     (case v of
        JNull \<Rightarrow> Inl TypeError
      | JBool b \<Rightarrow> Inr (if b then 1 else 0)
      | JInt i \<Rightarrow> (if too_large (of_int i) then Inl OverflowError else Inr (of_int i))
      | JFloat r \<Rightarrow> Inr r
      | JStr s \<Rightarrow> (case parse s of None \<Rightarrow> Inl ValueError | Some r \<Rightarrow> Inr r)
      | JArr \<Rightarrow> Inl TypeError
      | JObj \<Rightarrow> Inl TypeError)"

text \<open>\<^verbatim>\<open>int\<close> of a float truncates towards zero.\<close>

definition py_int :: "(string \<Rightarrow> int option) \<Rightarrow> jvalue \<Rightarrow> py_error + int" where
  "py_int parse v =
     (case v of
        JNull \<Rightarrow> Inl TypeError
      | JBool b \<Rightarrow> Inr (if b then 1 else 0)
      | JInt i \<Rightarrow> Inr i
      | JFloat r \<Rightarrow> Inr (if 0 \<le> r then \<lfloor>r\<rfloor> else \<lceil>r\<rceil>)
      | JStr s \<Rightarrow> (case parse s of None \<Rightarrow> Inl ValueError | Some i \<Rightarrow> Inr i)
      | JArr \<Rightarrow> Inl TypeError
      | JObj \<Rightarrow> Inl TypeError)"

text \<open>
  The replies of the view. \<open>BurnScheduled\<close> is \<^verbatim>\<open>status="Burn scheduled"\<close> with the
  telemetry (200), \<open>InvalidInput\<close> is \<^verbatim>\<open>"ERROR: Invalid input"\<close> (400),
  \<open>InvalidDuration\<close> is the message that the duration must be 1 to 60 s (400),
  \<open>StoreUnavailable\<close> is \<^verbatim>\<open>"ERROR: Could not read telemetry"\<close> (500), and
  \<open>Uncaught\<close> is an exception that leaves the view, which the framework answers
  with its own 500 page.
\<close>

datatype reply =
    BurnScheduled telemetry
  | InvalidInput
  | InvalidDuration
  | StoreUnavailable
  | Uncaught py_error

fun http_code :: "reply \<Rightarrow> nat" where
  "http_code (BurnScheduled _) = 200"
| "http_code InvalidInput = 400"
| "http_code InvalidDuration = 400"
| "http_code StoreUnavailable = 500"
| "http_code (Uncaught _) = 500"

definition MAX_DUR :: int where
  "MAX_DUR = 60"

text \<open>The conversions inside \<^verbatim>\<open>try\<close>: \<^verbatim>\<open>except (TypeError, ValueError)\<close>.\<close>

definition parse_request :: "cmd_host \<Rightarrow> request \<Rightarrow> py_error + (real \<times> real \<times> int)" where
  "parse_request h data =
     (case py_float (parse_float h) (get_or (req_dvx data) (JInt 0)) of Inl e \<Rightarrow> Inl e | Inr dvx \<Rightarrow>
      case py_float (parse_float h) (get_or (req_dvy data) (JInt 0)) of Inl e \<Rightarrow> Inl e | Inr dvy \<Rightarrow>
      case py_int (parse_int h) (get_or (req_duration data) (JInt 0)) of Inl e \<Rightarrow> Inl e
      | Inr duration \<Rightarrow> Inr (dvx, dvy, duration))"

definition caught :: "py_error \<Rightarrow> bool" where
  "caught e = (e = TypeError \<or> e = ValueError)"

text \<open>Schedule burn (lines 50 to 53).\<close>

definition schedule_burn :: "real \<Rightarrow> real \<Rightarrow> int \<Rightarrow> telemetry \<Rightarrow> py_error + telemetry" where
  "schedule_burn dvx dvy duration tm =
     (case py_truediv dvx (of_int duration) of Inl e \<Rightarrow> Inl e | Inr rx \<Rightarrow>
      case py_truediv dvy (of_int duration) of Inl e \<Rightarrow> Inl e | Inr ry \<Rightarrow>
        Inr (tm\<lparr> burn_rate_x := Some rx, burn_rate_y := Some ry,
                 burn_remaining := Some duration,
                 status := Some (burning_status duration) \<rparr>))"

definition send_command :: "cmd_host \<Rightarrow> request \<Rightarrow> world \<Rightarrow> reply \<times> world" where
  "send_command h data w =
     (case parse_request h data of
        Inl e \<Rightarrow> (if caught e then (InvalidInput, w) else (Uncaught e, w))
      | Inr (dvx, dvy, duration) \<Rightarrow>
          if duration < 1 \<or> MAX_DUR < duration then (InvalidDuration, w)
          else (case telemetry_file w of None \<Rightarrow> (StoreUnavailable, w) | Some tm0 \<Rightarrow>
            case schedule_burn dvx dvy duration tm0 of Inl e \<Rightarrow> (Uncaught e, w) | Inr tm \<Rightarrow>
              if \<not> store_write_ok h then (Uncaught OSError, w)
              else let w1 = w\<lparr> telemetry_file := Some tm \<rparr>
                   in if \<not> log_write_ok h then (Uncaught OSError, w1)
                      else (BurnScheduled tm,
                            w1\<lparr> command_log := command_log w1 @
                                  [\<lparr> logged_at = now_iso h, logged_dvx = dvx,
                                     logged_dvy = dvy, logged_duration = duration \<rparr>] \<rparr>)))"

subsection \<open>Worlds the two programs can produce\<close>

text \<open>
  The start is the document \<^verbatim>\<open>app.py\<close> creates; every call of the command handler
  and every iteration of the simulator, whatever it answers, leads to another
  reachable world.
\<close>

inductive reachable :: "world \<Rightarrow> bool" where
  start: "telemetry_file w = Some initial \<Longrightarrow> reachable w"
| command: "reachable w \<Longrightarrow> send_command h data w = (r, w') \<Longrightarrow> reachable w'"
| iteration: "reachable w \<Longrightarrow> sim_iteration sh w = (e, w') \<Longrightarrow> reachable w'"

subsection \<open>Predicates on telemetry documents\<close>

text \<open>
  A speed whose square is a double of its own: neither too small nor too large.
\<close>

definition square_in_range :: "real \<Rightarrow> bool" where
  "square_in_range s = (\<not> too_small (s\<^sup>2) \<and> \<not> too_large (s\<^sup>2))"

text \<open>The speed the next tick works with: the velocity after burn integration.\<close>

definition next_speed :: "telemetry \<Rightarrow> real" where
  "next_speed tm =
     (if 0 < get_or (burn_remaining tm) 0
      then sqrt ((get_or (vx tm) 0 + get_or (burn_rate_x tm) 0)\<^sup>2 +
                 (get_or (vy tm) 0 + get_or (burn_rate_y tm) 0)\<^sup>2)
      else sqrt ((get_or (vx tm) 0)\<^sup>2 + (get_or (vy tm) 0)\<^sup>2))"

definition radius_usable :: "telemetry \<Rightarrow> bool" where
  "radius_usable tm = (case radius tm of None \<Rightarrow> False | Some r \<Rightarrow> r \<noteq> 0)"

text \<open>
  A document on which the next tick raises nothing: both velocity components are
  there, a running countdown has its two rates, and the speed the tick works with
  is either zero, with a stored radius that is not zero, or has its square in range.
\<close>

definition runnable :: "telemetry \<Rightarrow> bool" where
  "runnable tm =
     (vx tm \<noteq> None \<and> vy tm \<noteq> None \<and>
      (0 < get_or (burn_remaining tm) 0 \<longrightarrow>
         burn_rate_x tm \<noteq> None \<and> burn_rate_y tm \<noteq> None) \<and>
      (if next_speed tm = 0 then radius_usable tm else square_in_range (next_speed tm)))"

text \<open>
  The three burn fields and the status go together: either a countdown of at least
  one second with both rates and the matching Burning status, or none of the three
  fields and one of the two other statuses.
\<close>

definition burn_fields_agree :: "telemetry \<Rightarrow> bool" where
  "burn_fields_agree tm =
     (case burn_remaining tm of
        Some n \<Rightarrow> 1 \<le> n \<and> burn_rate_x tm \<noteq> None \<and> burn_rate_y tm \<noteq> None \<and>
                  status tm = Some (burning_status n)
      | None \<Rightarrow> burn_rate_x tm = None \<and> burn_rate_y tm = None \<and>
                (status tm = Some ''Idle'' \<or> status tm = Some ''Stable''))"


subsection \<open>Example documents\<close>

text \<open>
  What the scheduler leaves in the initial document for a burn of 0.1 km/s over one
  second and of 0.2 km/s over two seconds, and a document with no velocity at all.
\<close>

definition one_second_burn :: telemetry where
  "one_second_burn =
     initial\<lparr> burn_rate_x := Some 0.1, burn_rate_y := Some 0, burn_remaining := Some 1,
              status := Some (burning_status 1) \<rparr>"

definition two_second_burn :: telemetry where
  "two_second_burn =
     initial\<lparr> burn_rate_x := Some 0.1, burn_rate_y := Some 0, burn_remaining := Some 2,
              status := Some (burning_status 2) \<rparr>"



definition creeping :: telemetry where
  "creeping = initial\<lparr> vx := Some (1 / 2 ^ 600), vy := Some 0 \<rparr>"




text \<open>The document a command leaves behind when it is accepted.\<close>

definition scheduled :: "real \<Rightarrow> real \<Rightarrow> int \<Rightarrow> telemetry \<Rightarrow> telemetry" where
  "scheduled dvx dvy duration tm =
     tm\<lparr> burn_rate_x := Some (dvx / of_int duration),
         burn_rate_y := Some (dvy / of_int duration),
         burn_remaining := Some duration,
         status := Some (burning_status duration) \<rparr>"

subsection \<open>Example requests, hosts and worlds\<close>

definition fresh_world :: world where
  "fresh_world = \<lparr> telemetry_file = Some initial, angle_feed_file = None, command_log = [] \<rparr>"

definition burning_world :: world where
  "burning_world =
     \<lparr> telemetry_file = Some two_second_burn, angle_feed_file = None, command_log = [] \<rparr>"

definition no_store_world :: world where
  "no_store_world = \<lparr> telemetry_file = None, angle_feed_file = None, command_log = [] \<rparr>"

definition good_host :: cmd_host where
  "good_host =
     \<lparr> parse_float = (\<lambda>s. None), parse_int = (\<lambda>s. None),
       now_iso = ''2024-01-01T00:00:00'', store_write_ok = True, log_write_ok = True \<rparr>"

definition log_down_host :: cmd_host where
  "log_down_host = good_host\<lparr> log_write_ok := False \<rparr>"

text \<open>\<^verbatim>\<open>{"dvx": 1.0, "dvy": 0, "duration": 10}\<close> and variations of it.\<close>

definition burn_request :: request where
  "burn_request =
     \<lparr> req_dvx = Some (JFloat 1.0), req_dvy = Some (JInt 0), req_duration = Some (JInt 10) \<rparr>"

definition long_request :: request where
  "long_request = burn_request\<lparr> req_duration := Some (JInt 61) \<rparr>"

text \<open>A request whose \<open>dvx\<close> is the integer literal \<open>10^400\<close>.\<close>

definition huge_request :: request where
  "huge_request = burn_request\<lparr> req_dvx := Some (JInt (10 ^ 400)) \<rparr>"

definition no_dvx_request :: request where
  "no_dvx_request = burn_request\<lparr> req_dvx := None \<rparr>"

definition no_dvy_request :: request where
  "no_dvy_request = burn_request\<lparr> req_dvy := None \<rparr>"

definition no_duration_request :: request where
  "no_duration_request = burn_request\<lparr> req_duration := None \<rparr>"

text \<open>A feed of \<open>n\<close> samples stamped 0 to \<open>n - 1\<close>, a host on which every write works, and
  a world whose feed is full.\<close>

definition numbered_samples :: "nat \<Rightarrow> feed_entry list" where
  "numbered_samples n = map (\<lambda>i. \<lparr> timestamp = int i, feed_angle = 0 \<rparr>) [0..<n]"

definition good_sim_host :: sim_host where
  "good_sim_host = \<lparr> now_ms = 1700000000000, feed_write_ok = True, telemetry_write_ok = True \<rparr>"

definition full_feed_world :: world where
  "full_feed_world =
     \<lparr> telemetry_file = Some initial, angle_feed_file = Some (numbered_samples 1000),
       command_log = [] \<rparr>"

section \<open>Properties\<close>

subsection \<open>Arithmetic and the two halves of a tick\<close>

lemma hypot_pos_iff: "0 < hypot x y \<longleftrightarrow> x \<noteq> 0 \<or> y \<noteq> 0"
  by (simp add: hypot_def sum_power2_gt_zero_iff)

lemma hypot_sq: "(hypot x y)\<^sup>2 = x\<^sup>2 + y\<^sup>2"
  by (simp add: hypot_def)

lemma wrap_range:
  "0 \<le> a - 360 * of_int \<lfloor>a / 360\<rfloor> \<and> a - 360 * of_int \<lfloor>a / 360\<rfloor> < (360::real)"
proof -
  have lo: "of_int \<lfloor>a / 360\<rfloor> \<le> a / 360" by (rule of_int_floor_le)
  have hi: "a / 360 < of_int \<lfloor>a / 360\<rfloor> + 1" by linarith
  from lo have "360 * of_int \<lfloor>a / 360\<rfloor> \<le> a" by linarith
  moreover from hi have "a < 360 * of_int \<lfloor>a / 360\<rfloor> + 360" by linarith
  ultimately show ?thesis by linarith
qed

lemma GM_pos: "0 < GM" by (simp add: GM_def)

text \<open>Every speed between \<open>2^-500\<close> and \<open>2^500\<close> has its square in range.\<close>

lemma square_in_range_mid:
  assumes "1 / 2 ^ 500 \<le> \<bar>s\<bar>" and "\<bar>s\<bar> \<le> 2 ^ 500"
  shows "square_in_range s"
proof -
  have up: "\<bar>s\<bar>\<^sup>2 \<le> (2 ^ 500)\<^sup>2" using assms(2) by (intro power_mono) simp_all
  have lo: "(1 / 2 ^ 500)\<^sup>2 \<le> \<bar>s\<bar>\<^sup>2" using assms(1) by (intro power_mono) simp_all
  have a: "((2::real) ^ 500)\<^sup>2 = 2 ^ 1000" by (simp add: power_mult [symmetric])
  have b: "(1 / (2::real) ^ 500)\<^sup>2 = 1 / 2 ^ 1000"
    by (simp add: power_divide power_mult [symmetric])
  have c: "(2::real) ^ 1000 < 2 ^ 1024 - 2 ^ 970" by simp
  have d: "1 / (2::real) ^ 1075 < 1 / 2 ^ 1000" by (simp add: field_simps)
  from up lo a b c d show ?thesis
    by (simp add: square_in_range_def too_small_def too_large_def)
qed

lemma py_pow_in_range: "square_in_range s \<Longrightarrow> py_pow s 2 = Inr (s\<^sup>2)"
  by (simp add: square_in_range_def py_pow_def)


lemma orbital_dynamics_moving:
  assumes "vx tm = Some x" "vy tm = Some y" "0 < hypot x y" "square_in_range (hypot x y)"
  shows "orbital_dynamics tm =
     Inr (tm\<lparr> radius := Some (GM / (hypot x y)\<^sup>2),
              altitude := Some (GM / (hypot x y)\<^sup>2 - EARTH_R),
              angle := Some (get_or (angle tm) 0 + hypot x y / (GM / (hypot x y)\<^sup>2) * (180 / pi)
                 - 360 * of_int \<lfloor>(get_or (angle tm) 0 + hypot x y / (GM / (hypot x y)\<^sup>2) * (180 / pi)) / 360\<rfloor>) \<rparr>)"
proof -
  from assms(3) have nz: "(hypot x y)\<^sup>2 \<noteq> 0" by simp
  with GM_pos have "GM / (hypot x y)\<^sup>2 \<noteq> 0" by simp
  with assms nz py_pow_in_range [OF assms(4)] show ?thesis
    by (simp add: orbital_dynamics_def subscript_def py_truediv_def py_mod_def Let_def)
qed

lemma orbital_dynamics_still:
  assumes "vx tm = Some x" "vy tm = Some y" "\<not> 0 < hypot x y"
  shows "orbital_dynamics tm =
     (case radius tm of None \<Rightarrow> Inl (KeyError ''radius'')
      | Some r \<Rightarrow> if r = 0 then Inl ZeroDivisionError
          else Inr (tm\<lparr> angle := Some (get_or (angle tm) 0 + hypot x y / r * (180 / pi)
                 - 360 * of_int \<lfloor>(get_or (angle tm) 0 + hypot x y / r * (180 / pi)) / 360\<rfloor>) \<rparr>))"
  using assms
  by (simp add: orbital_dynamics_def subscript_def py_truediv_def py_mod_def Let_def split: option.splits)


lemma orbital_dynamics_keeps:
  assumes "orbital_dynamics tm = Inr tm'"
  shows "vx tm' = vx tm \<and> vy tm' = vy tm \<and> status tm' = status tm \<and>
         burn_rate_x tm' = burn_rate_x tm \<and> burn_rate_y tm' = burn_rate_y tm \<and>
         burn_remaining tm' = burn_remaining tm"
  using assms
  by (auto simp add: orbital_dynamics_def subscript_def py_truediv_def py_mod_def Let_def
      split: option.splits if_splits sum.splits)

lemma orbital_dynamics_angle:
  assumes "orbital_dynamics tm = Inr tm'"
  shows "\<exists>a. angle tm' = Some a \<and> 0 \<le> a \<and> a < 360"
  using assms wrap_range
  by (auto simp add: orbital_dynamics_def subscript_def py_truediv_def py_mod_def Let_def
      split: option.splits if_splits sum.splits)

lemma orbital_dynamics_total:
  assumes "vx tm = Some x" and "vy tm = Some y"
    and "if hypot x y = 0 then radius_usable tm else square_in_range (hypot x y)"
  shows "\<exists>tm'. orbital_dynamics tm = Inr tm' \<and> radius_usable tm'"
proof (cases "0 < hypot x y")
  case True
  with assms(3) have r: "square_in_range (hypot x y)" by simp
  from True GM_pos have "GM / (hypot x y)\<^sup>2 \<noteq> 0" by simp
  with orbital_dynamics_moving [OF assms(1,2) True r] show ?thesis
    by (simp add: radius_usable_def)
next
  case False
  then have "hypot x y = 0" by (simp add: hypot_def sum_power2_gt_zero_iff)
  with assms(3) have "radius_usable tm" by simp
  with orbital_dynamics_still [OF assms(1,2) False] show ?thesis
    by (auto simp add: radius_usable_def split: option.splits)
qed

lemma burn_integration_idle:
  "\<not> 0 < get_or (burn_remaining tm) 0 \<Longrightarrow> burn_integration tm = Inr tm"
  by (simp add: burn_integration_def)

lemma burn_integration_active:
  "burn_remaining tm = Some n \<Longrightarrow> 0 < n \<Longrightarrow> vx tm = Some x \<Longrightarrow> vy tm = Some y \<Longrightarrow>
   burn_rate_x tm = Some bx \<Longrightarrow> burn_rate_y tm = Some by \<Longrightarrow>
   burn_integration tm =
     (if n = 1
      then Inr (tm\<lparr> vx := Some (x + bx), vy := Some (y + by), status := Some ''Stable'',
                     burn_rate_x := None, burn_rate_y := None, burn_remaining := None \<rparr>)
      else Inr (tm\<lparr> vx := Some (x + bx), vy := Some (y + by),
                     burn_remaining := Some (n - 1),
                     status := Some (burning_status (n - 1)) \<rparr>))"
  by (auto simp add: burn_integration_def get_or_def subscript_def Let_def)

lemma burn_integration_keeps:
  assumes "burn_integration tm = Inr tm1"
  shows "radius tm1 = radius tm \<and> altitude tm1 = altitude tm \<and> angle tm1 = angle tm"
  using assms
  by (auto simp add: burn_integration_def subscript_def Let_def
      split: if_splits option.splits)

lemma burn_integration_speed:
  assumes "burn_integration tm = Inr tm1" and "vx tm1 = Some x" and "vy tm1 = Some y"
  shows "next_speed tm = hypot x y"
  using assms
  by (auto simp add: burn_integration_def next_speed_def hypot_def subscript_def get_or_def
      Let_def split: if_splits option.splits)

lemma burn_integration_total:
  assumes "runnable tm"
  shows "\<exists>tm1. burn_integration tm = Inr tm1 \<and> vx tm1 \<noteq> None \<and> vy tm1 \<noteq> None"
proof (cases "0 < get_or (burn_remaining tm) 0")
  case False
  with assms show ?thesis by (simp add: burn_integration_idle runnable_def)
next
  case True
  then obtain n where n: "burn_remaining tm = Some n" "0 < n"
    by (auto simp add: get_or_def split: option.splits)
  from assms True obtain x y bx "by" where
    f: "vx tm = Some x" "vy tm = Some y" "burn_rate_x tm = Some bx" "burn_rate_y tm = Some by"
    by (auto simp add: runnable_def)
  show ?thesis
    by (simp add: burn_integration_active [OF n f])
qed

lemma tick_total:
  assumes "runnable tm"
  shows "\<exists>tm1 tm'. burn_integration tm = Inr tm1 \<and> orbital_dynamics tm1 = Inr tm' \<and>
           tick tm = Inr tm' \<and> radius_usable tm'"
proof -
  from burn_integration_total [OF assms] obtain tm1 x y where
    b: "burn_integration tm = Inr tm1" and xy: "vx tm1 = Some x" "vy tm1 = Some y"
    by auto
  from burn_integration_speed [OF b xy] have s: "next_speed tm = hypot x y" .
  from burn_integration_keeps [OF b] have k: "radius_usable tm1 = radius_usable tm"
    by (simp add: radius_usable_def)
  from assms have
    "if next_speed tm = 0 then radius_usable tm else square_in_range (next_speed tm)"
    by (simp add: runnable_def)
  then have "if hypot x y = 0 then radius_usable tm1 else square_in_range (hypot x y)"
    unfolding s k .
  from orbital_dynamics_total [OF xy this] obtain tm' where
    o: "orbital_dynamics tm1 = Inr tm'" "radius_usable tm'" by blast
  with b show ?thesis by (simp add: tick_def)
qed

lemma tick_angle:
  assumes "tick tm = Inr tm'"
  shows "\<exists>a. angle tm' = Some a \<and> 0 \<le> a \<and> a < 360"
  using assms orbital_dynamics_angle
  by (auto simp add: tick_def split: sum.splits)

lemma ticks_Suc_end:
  "ticks (Suc n) tm = (case ticks n tm of Inl e \<Rightarrow> Inl e | Inr tm' \<Rightarrow> tick tm')"
proof (induction n arbitrary: tm)
  case 0
  then show ?case by (simp split: sum.splits)
next
  case (Suc n)
  show ?case
  proof (cases "tick tm")
    case (Inl e)
    then show ?thesis by simp
  next
    case (Inr t)
    have "ticks (Suc (Suc n)) tm = ticks (Suc n) t" using Inr by simp
    also have "\<dots> = (case ticks n t of Inl e \<Rightarrow> Inl e | Inr tm' \<Rightarrow> tick tm')"
      by (rule Suc.IH)
    also have "\<dots> = (case ticks (Suc n) tm of Inl e \<Rightarrow> Inl e | Inr tm' \<Rightarrow> tick tm')"
      using Inr by simp
    finally show ?thesis .
  qed
qed

text \<open>
  A document without a countdown whose speed is between \<open>2^-500\<close> and \<open>2^500\<close>: the
  tick completes and leaves the velocity and the absence of a countdown as they are.
\<close>

lemma tick_coasting:
  assumes "vx tm = Some x" and "vy tm = Some y" and "burn_remaining tm = None"
    and "1 / 2 ^ 500 \<le> hypot x y" and "hypot x y \<le> 2 ^ 500"
  shows "\<exists>tm'. tick tm = Inr tm' \<and> vx tm' = Some x \<and> vy tm' = Some y \<and>
           burn_remaining tm' = None"
proof -
  have idle: "burn_integration tm = Inr tm"
    using assms(3) by (simp add: burn_integration_idle get_or_def)
  have "0 \<le> hypot x y" by (simp add: hypot_def)
  with assms(4,5) have r: "square_in_range (hypot x y)"
    by (intro square_in_range_mid) simp_all
  have "(0::real) < 1 / 2 ^ 500" by simp
  with assms(4) have p: "0 < hypot x y" by linarith
  from orbital_dynamics_moving [OF assms(1,2) p r] idle assms(1,2,3) show ?thesis
    by (simp add: tick_def)
qed

lemma hypot_initial: "hypot (15 / 2) 0 = 15 / 2"
  by (simp add: hypot_def)

lemma ticks_from_initial:
  "\<exists>tm. ticks n initial = Inr tm \<and> vx tm = Some (15 / 2) \<and> vy tm = Some 0 \<and>
        burn_remaining tm = None"
proof (induction n)
  case 0
  then show ?case by (simp add: initial_def)
next
  case (Suc n)
  then obtain tm where
    tm: "ticks n initial = Inr tm" "vx tm = Some (15 / 2)" "vy tm = Some 0"
      "burn_remaining tm = None"
    by blast
  have "1 / 2 ^ 500 \<le> hypot (15 / 2) 0" "hypot (15 / 2) 0 \<le> 2 ^ 500"
    by (simp_all add: hypot_initial)
  from tick_coasting [OF tm(2,3,4) this] tm(1) show ?case
    by (simp only: ticks_Suc_end) simp
qed

subsection \<open>Claims about the propagation tick\<close>

text \<open>
  C4. Angle range. Starting from the initial document (angle 0), any number of
  ticks in a row all complete, and the stored angle is at least 0 and less
  than 360 afterwards.
\<close>

theorem angle_range_from_initial:
  "\<exists>tm a. ticks n initial = Inr tm \<and> angle tm = Some a \<and> 0 \<le> a \<and> a < 360"
proof (cases n)
  case 0
  then show ?thesis by (simp add: initial_def)
next
  case (Suc m)
  from ticks_from_initial [of "Suc m"] obtain tm' where
    t: "ticks (Suc m) initial = Inr tm'" by blast
  then obtain tm1 where "ticks m initial = Inr tm1" "tick tm1 = Inr tm'"
    by (simp only: ticks_Suc_end split: sum.splits) auto
  from tick_angle [OF this(2)] t Suc show ?thesis by auto
qed

theorem angle_range_from_initial_witness:
  "\<exists>tm a. ticks 3 initial = Inr tm \<and> angle tm = Some a \<and> 0 \<le> a \<and> a < 360"
  by (rule angle_range_from_initial [of 3])

subsection \<open>The countdown of a burn\<close>

lemma tick_burning:
  assumes "vx tm = Some x" and "vy tm = Some y" and "burn_remaining tm = Some n" and "1 \<le> n"
    and "burn_rate_x tm = Some bx" and "burn_rate_y tm = Some by"
    and "if hypot (x + bx) (y + by) = 0 then radius_usable tm
         else square_in_range (hypot (x + bx) (y + by))"
  shows "\<exists>tm'. tick tm = Inr tm' \<and> vx tm' = Some (x + bx) \<and> vy tm' = Some (y + by) \<and>
           radius_usable tm' \<and>
           (if n = 1
            then burn_remaining tm' = None \<and> burn_rate_x tm' = None \<and>
                 burn_rate_y tm' = None \<and> status tm' = Some ''Stable''
            else burn_remaining tm' = Some (n - 1) \<and> burn_rate_x tm' = Some bx \<and>
                 burn_rate_y tm' = Some by \<and> status tm' = Some (burning_status (n - 1)))"
proof -
  from assms(4) have pos: "0 < n" by simp
  from assms(1,2,3,5,6) pos have s: "next_speed tm = hypot (x + bx) (y + by)"
    by (simp add: next_speed_def hypot_def get_or_def)
  from assms have "runnable tm"
    by (simp add: runnable_def s)
  from tick_total [OF this] obtain tm1 tm' where
    b: "burn_integration tm = Inr tm1" and o: "orbital_dynamics tm1 = Inr tm'"
    and t: "tick tm = Inr tm'" "radius_usable tm'"
    by blast
  from b burn_integration_active [OF assms(3) pos assms(1,2,5,6)] assms(5,6) have
    "vx tm1 = Some (x + bx) \<and> vy tm1 = Some (y + by) \<and>
     (if n = 1
      then burn_remaining tm1 = None \<and> burn_rate_x tm1 = None \<and>
           burn_rate_y tm1 = None \<and> status tm1 = Some ''Stable''
      else burn_remaining tm1 = Some (n - 1) \<and> burn_rate_x tm1 = Some bx \<and>
           burn_rate_y tm1 = Some by \<and> status tm1 = Some (burning_status (n - 1)))"
    by (auto split: if_splits)
  with orbital_dynamics_keeps [OF o] t show ?thesis by simp
qed









subsection \<open>The physics of one tick\<close>




subsection \<open>Division by zero in a tick\<close>

lemma creeping_square: "too_small ((1 / 2 ^ 600 :: real)\<^sup>2)"
proof -
  have "(1 / (2::real) ^ 600)\<^sup>2 = 1 / 2 ^ 1200"
    by (simp add: power_divide power_mult [symmetric])
  moreover have "1 / (2::real) ^ 1200 \<le> 1 / 2 ^ 1075" by (simp add: field_simps)
  ultimately show ?thesis by (simp add: too_small_def)
qed

text \<open>
  C9 at its failing input. The document \<open>creeping\<close> has a positive speed, \<open>2^-600\<close>,
  and a stored radius of 6871, so the condition the claim asks of the incoming
  document holds; but the square of the speed is too small for a double, the power
  is 0.0, and the division \<open>GM / speed\<^sup>2\<close> raises ZeroDivisionError. The claim's
  second half, that with a positive speed the division is always safe, fails there.
\<close>

theorem creeping_tick_divides_by_zero:
  "tick creeping = Inl ZeroDivisionError \<and>
   burn_integration creeping = Inr creeping \<and>
   vx creeping = Some (1 / 2 ^ 600) \<and> vy creeping = Some 0 \<and>
   0 < sqrt ((1 / 2 ^ 600)\<^sup>2 + 0\<^sup>2 :: real) \<and>
   radius creeping = Some 6871"
proof -
  have b: "burn_integration creeping = Inr creeping"
    by (simp add: burn_integration_def creeping_def initial_def get_or_def)
  have v: "vx creeping = Some (1 / 2 ^ 600)" "vy creeping = Some 0"
    "radius creeping = Some 6871"
    by (simp_all add: creeping_def initial_def EARTH_R_def)
  have p: "0 < hypot (1 / 2 ^ 600) 0" by (simp add: hypot_pos_iff)
  have big: "\<not> too_large ((1 / 2 ^ 600 :: real)\<^sup>2)"
  proof -
    have "(1 / (2::real) ^ 600)\<^sup>2 = 1 / 2 ^ 1200"
      by (simp add: power_divide power_mult [symmetric])
    moreover have "1 / (2::real) ^ 1200 \<le> 1" by simp
    moreover have "(1::real) < 2 ^ 1024 - 2 ^ 970" by simp
    ultimately show ?thesis by (simp add: too_large_def)
  qed
  have "py_pow (hypot (1 / 2 ^ 600) 0) 2 = Inr 0"
    using creeping_square big by (simp add: py_pow_def hypot_sq)
  with p v have "orbital_dynamics creeping = Inl ZeroDivisionError"
    by (simp add: orbital_dynamics_def subscript_def py_truediv_def Let_def)
  with b have t: "tick creeping = Inl ZeroDivisionError" by (simp add: tick_def)
  from p have "0 < sqrt ((1 / 2 ^ 600)\<^sup>2 + 0\<^sup>2 :: real)" by (simp add: hypot_def)
  with t b v show ?thesis by simp
qed

subsection \<open>The command handler\<close>

lemma schedule_burn_ok:
  "duration \<noteq> 0 \<Longrightarrow> schedule_burn dvx dvy duration tm = Inr (scheduled dvx dvy duration tm)"
  by (simp add: schedule_burn_def scheduled_def py_truediv_def)

lemma send_command_accepted:
  assumes "parse_request h data = Inr (dvx, dvy, duration)"
    and "1 \<le> duration" and "duration \<le> 60" and "telemetry_file w = Some tm0"
  shows "send_command h data w =
     (if \<not> store_write_ok h then (Uncaught OSError, w)
      else if \<not> log_write_ok h
        then (Uncaught OSError, w\<lparr> telemetry_file := Some (scheduled dvx dvy duration tm0) \<rparr>)
        else (BurnScheduled (scheduled dvx dvy duration tm0),
              w\<lparr> telemetry_file := Some (scheduled dvx dvy duration tm0),
                  command_log := command_log w @
                    [\<lparr> logged_at = now_iso h, logged_dvx = dvx, logged_dvy = dvy,
                       logged_duration = duration \<rparr>] \<rparr>))"
proof -
  from assms(2) have "duration \<noteq> 0" by simp
  from schedule_burn_ok [OF this] assms show ?thesis
    by (simp add: send_command_def MAX_DUR_def Let_def)
qed

lemma send_command_out_of_range:
  assumes "parse_request h data = Inr (dvx, dvy, duration)"
    and "duration < 1 \<or> 60 < duration"
  shows "send_command h data w = (InvalidDuration, w)"
  using assms by (simp add: send_command_def MAX_DUR_def)

lemma parse_request_fields:
  assumes "py_float (parse_float h) (get_or (req_dvx data) (JInt 0)) = Inr dvx"
    and "py_float (parse_float h) (get_or (req_dvy data) (JInt 0)) = Inr dvy"
    and "py_int (parse_int h) (get_or (req_duration data) (JInt 0)) = Inr duration"
  shows "parse_request h data = Inr (dvx, dvy, duration)"
  using assms by (simp add: parse_request_def)


lemma py_float_default: "py_float parse (get_or None (JInt 0)) = Inr 0"
  by (simp add: py_float_def get_or_def too_large_def)

lemma py_int_default: "py_int parse (get_or None (JInt 0)) = Inr 0"
  by (simp add: py_int_def get_or_def)

text \<open>
  An integer too large for a double: \<^verbatim>\<open>float\<close> raises OverflowError, the \<^verbatim>\<open>except\<close>
  clause does not catch it, and the handler ends with the 500 answer before the
  store is read.
\<close>

lemma send_command_huge_integer:
  "send_command good_host huge_request fresh_world = (Uncaught OverflowError, fresh_world)"
proof -
  have "too_large (of_int (10 ^ 400))" by (simp add: too_large_def)
  then have "parse_request good_host huge_request = Inl OverflowError"
    by (simp add: parse_request_def huge_request_def burn_request_def py_float_def get_or_def)
  then show ?thesis by (simp add: send_command_def caught_def)
qed




text \<open>
  C5. Rejection of a duration out of range. For every request whose fields convert
  (\<open>dvx\<close> and \<open>dvy\<close> to floats, the duration to an integer) and whose duration is
  below 1 or above 60, the handler answers \<open>InvalidDuration\<close> with code 400, and the
  telemetry file, the feed and the command log are exactly as before.
\<close>

theorem invalid_duration_rejected:
  assumes "parse_request h data = Inr (dvx, dvy, duration)"
    and "duration < 1 \<or> 60 < duration"
  shows "send_command h data w = (InvalidDuration, w) \<and>
         http_code (fst (send_command h data w)) = 400"
  using send_command_out_of_range [OF assms] by simp

theorem invalid_duration_rejected_witness:
  "send_command good_host long_request burning_world = (InvalidDuration, burning_world) \<and>
   http_code (fst (send_command good_host long_request burning_world)) = 400"
proof -
  have p: "parse_request good_host long_request = Inr (1.0, 0, 61)"
    by (simp add: parse_request_def long_request_def burn_request_def py_float_def py_int_def too_large_def
        get_or_def)
  have r: "(61::int) < 1 \<or> 60 < (61::int)" by simp
  from invalid_duration_rejected [OF p r] show ?thesis by simp
qed

text \<open>
  C7 (as amended). Failure of the audit log. For every validated burn command with
  the telemetry file readable and writable, a failure to append the audit record
  leaves the telemetry update in place: the stored document is the scheduled one and
  the log is unchanged. The failure is not handled, though: the exception leaves the
  view and the caller gets the 500 answer instead of \<open>Burn scheduled\<close>.
\<close>

theorem audit_log_failure:
  assumes "parse_request h data = Inr (dvx, dvy, duration)"
    and "1 \<le> duration" and "duration \<le> 60"
    and "telemetry_file w = Some tm0" and "store_write_ok h" and "\<not> log_write_ok h"
  shows "send_command h data w =
           (Uncaught OSError, w\<lparr> telemetry_file := Some (scheduled dvx dvy duration tm0) \<rparr>) \<and>
         http_code (fst (send_command h data w)) = 500 \<and>
         command_log (snd (send_command h data w)) = command_log w"
  using send_command_accepted [OF assms(1-4)] assms(5,6) by simp

theorem audit_log_failure_witness:
  "send_command log_down_host burn_request fresh_world =
     (Uncaught OSError, fresh_world\<lparr> telemetry_file := Some (scheduled 1.0 0 10 initial) \<rparr>) \<and>
   http_code (fst (send_command log_down_host burn_request fresh_world)) = 500 \<and>
   command_log (snd (send_command log_down_host burn_request fresh_world)) = []"
proof -
  have p: "parse_request log_down_host burn_request = Inr (1.0, 0, 10)"
    by (simp add: parse_request_def burn_request_def py_float_def py_int_def too_large_def get_or_def)
  have h: "(1::int) \<le> 10" "(10::int) \<le> 60" "telemetry_file fresh_world = Some initial"
    "store_write_ok log_down_host" "\<not> log_write_ok log_down_host"
    by (simp_all add: fresh_world_def log_down_host_def good_host_def)
  have c: "command_log fresh_world = []" by (simp add: fresh_world_def)
  from audit_log_failure [OF p h] c show ?thesis by simp
qed

text \<open>
  With the log not writable the standard request on the fresh world is answered by
  an uncaught OSError, code 500, where the same request with a writable log is
  answered \<open>Burn scheduled\<close>; the telemetry file holds the scheduled burn all the same.
\<close>

theorem audit_log_failure_counterexample:
  "fst (send_command log_down_host burn_request fresh_world) = Uncaught OSError \<and>
   http_code (fst (send_command log_down_host burn_request fresh_world)) = 500 \<and>
   fst (send_command good_host burn_request fresh_world) =
     BurnScheduled (scheduled 1.0 0 10 initial) \<and>
   telemetry_file (snd (send_command log_down_host burn_request fresh_world)) =
     Some (scheduled 1.0 0 10 initial)"
  by (simp add: send_command_def parse_request_def burn_request_def py_float_def py_int_def too_large_def
      get_or_def MAX_DUR_def fresh_world_def log_down_host_def good_host_def schedule_burn_def
      py_truediv_def scheduled_def Let_def)

text \<open>
  C10. Defaults of missing fields. A request without \<open>dvx\<close> whose other fields convert,
  with a duration from 1 to 60, is accepted with \<open>dvx = 0\<close>, so \<open>burn_rate_x = 0\<close>; the
  same holds for \<open>dvy\<close>. A request without a duration whose \<open>dvx\<close> and \<open>dvy\<close> convert
  has its duration taken as 0 and is answered \<open>InvalidDuration\<close>, not \<open>InvalidInput\<close>, in
  every world, readable telemetry file or not, and the world is unchanged.
\<close>

theorem missing_fields_default:
  "(req_dvx data = None \<and>
    py_float (parse_float h) (get_or (req_dvy data) (JInt 0)) = Inr dvy \<and>
    py_int (parse_int h) (get_or (req_duration data) (JInt 0)) = Inr duration \<and>
    1 \<le> duration \<and> duration \<le> 60 \<and> telemetry_file w = Some tm0 \<and>
    store_write_ok h \<and> log_write_ok h \<longrightarrow>
      fst (send_command h data w) = BurnScheduled (scheduled 0 dvy duration tm0) \<and>
      telemetry_file (snd (send_command h data w)) = Some (scheduled 0 dvy duration tm0) \<and>
      burn_rate_x (scheduled 0 dvy duration tm0) = Some 0) \<and>
   (req_dvy data = None \<and>
    py_float (parse_float h) (get_or (req_dvx data) (JInt 0)) = Inr dvx \<and>
    py_int (parse_int h) (get_or (req_duration data) (JInt 0)) = Inr duration \<and>
    1 \<le> duration \<and> duration \<le> 60 \<and> telemetry_file w = Some tm0 \<and>
    store_write_ok h \<and> log_write_ok h \<longrightarrow>
      fst (send_command h data w) = BurnScheduled (scheduled dvx 0 duration tm0) \<and>
      telemetry_file (snd (send_command h data w)) = Some (scheduled dvx 0 duration tm0) \<and>
      burn_rate_y (scheduled dvx 0 duration tm0) = Some 0) \<and>
   (req_duration data = None \<and>
    py_float (parse_float h) (get_or (req_dvx data) (JInt 0)) = Inr dvx \<and>
    py_float (parse_float h) (get_or (req_dvy data) (JInt 0)) = Inr dvy \<longrightarrow>
      send_command h data w = (InvalidDuration, w))"
proof (intro conjI impI)
  assume a: "req_dvx data = None \<and>
    py_float (parse_float h) (get_or (req_dvy data) (JInt 0)) = Inr dvy \<and>
    py_int (parse_int h) (get_or (req_duration data) (JInt 0)) = Inr duration \<and>
    1 \<le> duration \<and> duration \<le> 60 \<and> telemetry_file w = Some tm0 \<and>
    store_write_ok h \<and> log_write_ok h"
  then have p: "parse_request h data = Inr (0, dvy, duration)"
    by (intro parse_request_fields) (simp_all add: py_float_default)
  from a have r: "1 \<le> duration" "duration \<le> 60" "telemetry_file w = Some tm0" by simp_all
  from send_command_accepted [OF p r] a
  show "fst (send_command h data w) = BurnScheduled (scheduled 0 dvy duration tm0)"
    and "telemetry_file (snd (send_command h data w)) = Some (scheduled 0 dvy duration tm0)"
    by simp_all
  show "burn_rate_x (scheduled 0 dvy duration tm0) = Some 0" by (simp add: scheduled_def)
next
  assume a: "req_dvy data = None \<and>
    py_float (parse_float h) (get_or (req_dvx data) (JInt 0)) = Inr dvx \<and>
    py_int (parse_int h) (get_or (req_duration data) (JInt 0)) = Inr duration \<and>
    1 \<le> duration \<and> duration \<le> 60 \<and> telemetry_file w = Some tm0 \<and>
    store_write_ok h \<and> log_write_ok h"
  then have p: "parse_request h data = Inr (dvx, 0, duration)"
    by (intro parse_request_fields) (simp_all add: py_float_default)
  from a have r: "1 \<le> duration" "duration \<le> 60" "telemetry_file w = Some tm0" by simp_all
  from send_command_accepted [OF p r] a
  show "fst (send_command h data w) = BurnScheduled (scheduled dvx 0 duration tm0)"
    and "telemetry_file (snd (send_command h data w)) = Some (scheduled dvx 0 duration tm0)"
    by simp_all
  show "burn_rate_y (scheduled dvx 0 duration tm0) = Some 0" by (simp add: scheduled_def)
next
  assume a: "req_duration data = None \<and>
    py_float (parse_float h) (get_or (req_dvx data) (JInt 0)) = Inr dvx \<and>
    py_float (parse_float h) (get_or (req_dvy data) (JInt 0)) = Inr dvy"
  then have p: "parse_request h data = Inr (dvx, dvy, 0)"
    by (intro parse_request_fields) (simp_all add: py_int_default)
  have "(0::int) < 1 \<or> 60 < (0::int)" by simp
  from send_command_out_of_range [OF p this]
  show "send_command h data w = (InvalidDuration, w)" .
qed

theorem missing_fields_default_witness:
  "(fst (send_command good_host no_dvx_request fresh_world) =
      BurnScheduled (scheduled 0 0 10 initial) \<and>
    burn_rate_x (scheduled 0 0 10 initial) = Some 0) \<and>
   (fst (send_command good_host no_dvy_request fresh_world) =
      BurnScheduled (scheduled 1.0 0 10 initial) \<and>
    burn_rate_y (scheduled 1.0 0 10 initial) = Some 0) \<and>
   send_command good_host no_duration_request no_store_world = (InvalidDuration, no_store_world)"
proof -
  have f: "py_float (parse_float good_host) (get_or (Some (JFloat 1.0)) (JInt 0)) = Inr 1.0"
    "py_float (parse_float good_host) (get_or (Some (JInt 0)) (JInt 0)) = Inr 0"
    "py_int (parse_int good_host) (get_or (Some (JInt 10)) (JInt 0)) = Inr 10"
    by (simp_all add: py_float_def py_int_def too_large_def get_or_def)
  have e: "telemetry_file fresh_world = Some initial" "store_write_ok good_host"
    "log_write_ok good_host"
    by (simp_all add: fresh_world_def good_host_def)
  have a: "fst (send_command good_host no_dvx_request fresh_world) =
      BurnScheduled (scheduled 0 0 10 initial) \<and>
    burn_rate_x (scheduled 0 0 10 initial) = Some 0"
    using missing_fields_default [where data = no_dvx_request and h = good_host and dvy = 0 and duration = 10 and w = fresh_world and ?tm0.0 = initial] f e
    by (simp add: no_dvx_request_def burn_request_def)
  have b: "fst (send_command good_host no_dvy_request fresh_world) =
      BurnScheduled (scheduled 1.0 0 10 initial) \<and>
    burn_rate_y (scheduled 1.0 0 10 initial) = Some 0"
    using missing_fields_default [where data = no_dvy_request and h = good_host and dvx = "1.0" and duration = 10 and w = fresh_world and ?tm0.0 = initial] f e
    by (simp add: no_dvy_request_def burn_request_def)
  have c: "send_command good_host no_duration_request no_store_world =
      (InvalidDuration, no_store_world)"
    using missing_fields_default [where data = no_duration_request and h = good_host and dvx = "1.0" and dvy = 0 and w = no_store_world] f
    by (simp add: no_duration_request_def burn_request_def)
  from a b c show ?thesis by blast
qed

subsection \<open>The burn fields in reachable worlds\<close>

lemma is_burning_status: "is_burning (Some (burning_status n))"
  by (simp add: is_burning_def burning_status_def)

lemma not_burning_idle_stable:
  "\<not> is_burning (Some ''Idle'')" "\<not> is_burning (Some ''Stable'')"
  by (simp_all add: is_burning_def)

lemma burn_fields_agree_initial: "burn_fields_agree initial"
  by (simp add: burn_fields_agree_def initial_def)

lemma burn_fields_agree_scheduled:
  "1 \<le> duration \<Longrightarrow> burn_fields_agree (scheduled dvx dvy duration tm)"
  by (simp add: burn_fields_agree_def scheduled_def)

lemma burn_integration_agree:
  assumes "burn_integration tm = Inr tm1" and "burn_fields_agree tm"
  shows "burn_fields_agree tm1"
proof (cases "burn_remaining tm")
  case None
  with assms show ?thesis by (simp add: burn_integration_def get_or_def)
next
  case (Some n)
  with assms(2) have n: "1 \<le> n" "burn_rate_x tm \<noteq> None" "burn_rate_y tm \<noteq> None"
    by (simp_all add: burn_fields_agree_def)
  with assms(1) Some show ?thesis
    by (auto simp add: burn_integration_def get_or_def subscript_def Let_def
        burn_fields_agree_def split: option.splits if_splits)
qed

lemma orbital_dynamics_agree:
  assumes "orbital_dynamics tm = Inr tm'" and "burn_fields_agree tm"
  shows "burn_fields_agree tm'"
  using orbital_dynamics_keeps [OF assms(1)] assms(2)
  by (auto simp add: burn_fields_agree_def split: option.splits)

lemma tick_agree:
  assumes "tick tm = Inr tm'" and "burn_fields_agree tm"
  shows "burn_fields_agree tm'"
  using assms burn_integration_agree orbital_dynamics_agree
  by (auto simp add: tick_def split: sum.splits)

lemma sim_iteration_store:
  assumes "sim_iteration sh w = (e, w')"
  shows "telemetry_file w' = telemetry_file w \<or>
         (\<exists>tm0 tm. telemetry_file w = Some tm0 \<and> tick tm0 = Inr tm \<and>
                   telemetry_file w' = Some tm)"
  using assms
  by (auto simp add: sim_iteration_def Let_def subscript_def
      split: option.splits sum.splits if_splits)

lemma send_command_store:
  assumes "send_command h data w = (r, w')"
  shows "telemetry_file w' = telemetry_file w \<or>
         (\<exists>tm0 dvx dvy duration. telemetry_file w = Some tm0 \<and> 1 \<le> duration \<and>
             duration \<le> 60 \<and> telemetry_file w' = Some (scheduled dvx dvy duration tm0))"
proof (cases "parse_request h data")
  case (Inl e)
  with assms show ?thesis by (auto simp add: send_command_def split: if_splits)
next
  case (Inr p)
  obtain dvx dvy duration where p: "p = (dvx, dvy, duration)" by (cases p) auto
  show ?thesis
  proof (cases "duration < 1 \<or> 60 < duration")
    case True
    with Inr p assms show ?thesis by (simp add: send_command_def MAX_DUR_def)
  next
    case False
    then have d: "1 \<le> duration" "duration \<le> 60" by simp_all
    show ?thesis
    proof (cases "telemetry_file w")
      case None
      with Inr p assms False show ?thesis by (simp add: send_command_def MAX_DUR_def)
    next
      case (Some tm0)
      from Inr p have "parse_request h data = Inr (dvx, dvy, duration)" by simp
      from send_command_accepted [OF this d Some] assms Some d show ?thesis
        by (auto split: if_splits)
    qed
  qed
qed

lemma reachable_agree:
  "reachable w \<Longrightarrow> \<exists>tm. telemetry_file w = Some tm \<and> burn_fields_agree tm"
proof (induction rule: reachable.induct)
  case (start w)
  then show ?case by (simp add: burn_fields_agree_initial)
next
  case (command w h data r w')
  from send_command_store [OF command.hyps(2)] command.IH show ?case
    by (auto simp add: burn_fields_agree_scheduled)
next
  case (iteration w sh e w')
  from sim_iteration_store [OF iteration.hyps(2)] iteration.IH show ?case
    by (auto dest: tick_agree)
qed

lemma schedule_burn_installs:
  assumes "schedule_burn dvx dvy duration tm0 = Inr tm1"
  shows "burn_remaining tm1 = Some duration \<and> burn_rate_x tm1 \<noteq> None \<and>
         burn_rate_y tm1 \<noteq> None \<and> status tm1 = Some (burning_status duration)"
  using assms
  by (auto simp add: schedule_burn_def py_truediv_def split: if_splits)

lemma last_tick_removes:
  assumes "tick tm0 = Inr tm2" and "burn_remaining tm0 = Some 1"
  shows "burn_remaining tm2 = None \<and> burn_rate_x tm2 = None \<and> burn_rate_y tm2 = None \<and>
         status tm2 = Some ''Stable''"
proof -
  from assms(1) obtain tm1 where
    b: "burn_integration tm0 = Inr tm1" and o: "orbital_dynamics tm1 = Inr tm2"
    by (auto simp add: tick_def split: sum.splits)
  from b assms(2) have "burn_remaining tm1 = None \<and> burn_rate_x tm1 = None \<and>
      burn_rate_y tm1 = None \<and> status tm1 = Some ''Stable''"
    by (auto simp add: burn_integration_def get_or_def subscript_def Let_def
        split: option.splits)
  with orbital_dynamics_keeps [OF o] show ?thesis by simp
qed

text \<open>
  C6. The burn fields go together. In every world reachable from the initial document
  by calls of the command handler and iterations of the simulator, in any order, the
  telemetry file holds a document in which \<open>burn_remaining\<close> is present exactly when
  both burn rates are, and exactly when the status is the Burning text; the status
  then shows the countdown, which is at least 1, and is \<open>Idle\<close> or \<open>Stable\<close> otherwise.
  The scheduler installs the three fields and the Burning status together, and the
  tick that takes a countdown of 1 removes the three fields and the Burning status
  together.
\<close>

theorem burn_fields_together:
  "(reachable w \<longrightarrow>
      (\<exists>tm. telemetry_file w = Some tm \<and>
         (burn_remaining tm \<noteq> None \<longleftrightarrow> burn_rate_x tm \<noteq> None \<and> burn_rate_y tm \<noteq> None) \<and>
         (burn_rate_x tm \<noteq> None \<longleftrightarrow> burn_rate_y tm \<noteq> None) \<and>
         (burn_remaining tm \<noteq> None \<longleftrightarrow> is_burning (status tm)) \<and>
         (case burn_remaining tm of
            Some n \<Rightarrow> 1 \<le> n \<and> status tm = Some (burning_status n)
          | None \<Rightarrow> status tm = Some ''Idle'' \<or> status tm = Some ''Stable''))) \<and>
   (schedule_burn dvx dvy duration tm0 = Inr tm1 \<longrightarrow>
      burn_remaining tm1 = Some duration \<and> burn_rate_x tm1 \<noteq> None \<and>
      burn_rate_y tm1 \<noteq> None \<and> is_burning (status tm1)) \<and>
   (tick tm2 = Inr tm3 \<and> burn_remaining tm2 = Some 1 \<longrightarrow>
      burn_remaining tm3 = None \<and> burn_rate_x tm3 = None \<and> burn_rate_y tm3 = None \<and>
      \<not> is_burning (status tm3))"
proof (intro conjI impI)
  assume "reachable w"
  from reachable_agree [OF this] obtain tm where
    tm: "telemetry_file w = Some tm" "burn_fields_agree tm" by blast
  show "\<exists>tm. telemetry_file w = Some tm \<and>
         (burn_remaining tm \<noteq> None \<longleftrightarrow> burn_rate_x tm \<noteq> None \<and> burn_rate_y tm \<noteq> None) \<and>
         (burn_rate_x tm \<noteq> None \<longleftrightarrow> burn_rate_y tm \<noteq> None) \<and>
         (burn_remaining tm \<noteq> None \<longleftrightarrow> is_burning (status tm)) \<and>
         (case burn_remaining tm of
            Some n \<Rightarrow> 1 \<le> n \<and> status tm = Some (burning_status n)
          | None \<Rightarrow> status tm = Some ''Idle'' \<or> status tm = Some ''Stable'')"
  proof (cases "burn_remaining tm")
    case None
    with tm show ?thesis
      by (auto simp add: burn_fields_agree_def not_burning_idle_stable)
  next
    case (Some n)
    with tm show ?thesis
      by (auto simp add: burn_fields_agree_def is_burning_status)
  qed
next
  assume a: "schedule_burn dvx dvy duration tm0 = Inr tm1"
  from schedule_burn_installs [OF a]
  show "burn_remaining tm1 = Some duration" "burn_rate_x tm1 \<noteq> None" "burn_rate_y tm1 \<noteq> None"
    "is_burning (status tm1)"
    by (simp_all add: is_burning_status)
next
  assume a: "tick tm2 = Inr tm3 \<and> burn_remaining tm2 = Some 1"
  then have "tick tm2 = Inr tm3" "burn_remaining tm2 = Some 1" by simp_all
  from last_tick_removes [OF this]
  show "burn_remaining tm3 = None" "burn_rate_x tm3 = None" "burn_rate_y tm3 = None"
    "\<not> is_burning (status tm3)"
    by (simp_all add: not_burning_idle_stable)
qed

theorem burn_fields_together_witness:
  "(\<exists>tm. telemetry_file (snd (send_command good_host burn_request fresh_world)) = Some tm \<and>
      (burn_remaining tm \<noteq> None \<longleftrightarrow> burn_rate_x tm \<noteq> None \<and> burn_rate_y tm \<noteq> None) \<and>
      (burn_rate_x tm \<noteq> None \<longleftrightarrow> burn_rate_y tm \<noteq> None) \<and>
      (burn_remaining tm \<noteq> None \<longleftrightarrow> is_burning (status tm))) \<and>
   (burn_remaining (scheduled 1.0 0 10 initial) = Some 10 \<and>
    is_burning (status (scheduled 1.0 0 10 initial))) \<and>
   (\<exists>tm3. tick one_second_burn = Inr tm3 \<and> burn_remaining tm3 = None \<and>
      burn_rate_x tm3 = None \<and> burn_rate_y tm3 = None \<and> \<not> is_burning (status tm3))"
proof -
  have "reachable fresh_world"
    by (rule reachable.start) (simp add: fresh_world_def)
  then have r: "reachable (snd (send_command good_host burn_request fresh_world))"
    by (rule reachable.command) (rule prod.collapse [symmetric])
  have s: "schedule_burn 1.0 0 10 initial = Inr (scheduled 1.0 0 10 initial)"
    by (rule schedule_burn_ok) simp
  have "square_in_range (hypot (15 / 2 + 1 / 10) (0 + 0))"
    by (rule square_in_range_mid) (simp_all add: hypot_def)
  moreover have "hypot (15 / 2 + 1 / 10) (0 + 0) \<noteq> 0" by (simp add: hypot_def)
  ultimately obtain tm3 where t: "tick one_second_burn = Inr tm3"
    using tick_burning [of one_second_burn "15 / 2" 0 1 "1 / 10" 0]
    by (auto simp add: one_second_burn_def initial_def)
  have o: "burn_remaining one_second_burn = Some 1" by (simp add: one_second_burn_def)
  from burn_fields_together
    [where w = "snd (send_command good_host burn_request fresh_world)"
       and dvx = "1.0" and dvy = 0 and duration = 10 and ?tm0.0 = initial
       and ?tm1.0 = "scheduled 1.0 0 10 initial"
       and ?tm2.0 = one_second_burn and ?tm3.0 = tm3]
    r s t o
  show ?thesis by auto
qed


subsection \<open>The angle feed\<close>

lemma length_last_n: "length (last_n k xs) = min k (length xs)"
  by (simp add: last_n_def)

lemma last_n_short: "length xs \<le> k \<Longrightarrow> last_n k xs = xs"
  by (simp add: last_n_def)

lemma last_n_append: "last_n k (last_n k xs @ ys) = last_n k (xs @ ys)"
proof (cases "length xs \<le> k")
  case True
  then show ?thesis by (simp add: last_n_short)
next
  case False
  then show ?thesis by (simp add: last_n_def add.commute)
qed

lemma length_feed_append: "length (feed_append xs e) \<le> 1000"
  by (simp add: feed_append_def length_last_n)

lemma feed_append_full: "length xs = 1000 \<Longrightarrow> feed_append xs e = tl xs @ [e]"
  by (cases xs) (simp_all add: feed_append_def last_n_def)

lemma foldl_feed_append:
  "length acc \<le> 1000 \<Longrightarrow> foldl feed_append acc es = last_n 1000 (acc @ es)"
proof (induction es arbitrary: acc)
  case Nil
  then show ?case by (simp add: last_n_short)
next
  case (Cons e es)
  have "foldl feed_append (feed_append acc e) es = last_n 1000 (feed_append acc e @ es)"
    by (rule Cons.IH) (rule length_feed_append)
  also have "\<dots> = last_n 1000 ((acc @ [e]) @ es)"
    unfolding feed_append_def by (rule last_n_append)
  finally show ?case by simp
qed

lemma feed_after_1001:
  assumes "length es = 1001"
  shows "foldl feed_append [] es = tl es"
proof -
  have "foldl feed_append [] es = last_n 1000 es"
    using foldl_feed_append [of "[]" es] by simp
  also from assms have "\<dots> = tl es"
    by (cases es) (simp_all add: last_n_def)
  finally show ?thesis .
qed

lemma sim_iteration_feed:
  assumes "telemetry_file w = Some tm0" and "tick tm0 = Inr tm" and "feed_write_ok h"
  shows "angle_feed_file (snd (sim_iteration h w)) =
           Some (feed_append (case angle_feed_file w of None \<Rightarrow> [] | Some l \<Rightarrow> l)
                   \<lparr> timestamp = now_ms h, feed_angle = py_round (get_or (angle tm) 0) 4 \<rparr>)"
  using assms
  by (simp add: sim_iteration_def feed_sample_def Let_def subscript_def split: option.splits)

lemma sim_iteration_feed_cases:
  "angle_feed_file (snd (sim_iteration h w)) = angle_feed_file w \<or>
   (\<exists>l e. angle_feed_file (snd (sim_iteration h w)) = Some (feed_append l e))"
  by (auto simp add: sim_iteration_def Let_def subscript_def split: option.splits sum.splits)

lemma round_half_even_near:
  "\<bar>of_int (round_half_even x) - x\<bar> \<le> 1 / 2 \<and>
   (\<bar>of_int (round_half_even x) - x\<bar> = 1 / 2 \<longrightarrow> even (round_half_even x))"
proof -
  have lo: "of_int \<lfloor>x\<rfloor> \<le> x" by (rule of_int_floor_le)
  have hi: "x < of_int \<lfloor>x\<rfloor> + 1" by linarith
  consider "x - of_int \<lfloor>x\<rfloor> < 1 / 2" | "1 / 2 < x - of_int \<lfloor>x\<rfloor>"
    | "x - of_int \<lfloor>x\<rfloor> = 1 / 2" "even \<lfloor>x\<rfloor>" | "x - of_int \<lfloor>x\<rfloor> = 1 / 2" "odd \<lfloor>x\<rfloor>"
    by linarith
  then show ?thesis
  proof cases
    case 1
    then have "round_half_even x = \<lfloor>x\<rfloor>" by (simp add: round_half_even_def Let_def)
    with 1 lo show ?thesis by simp
  next
    case 2
    then have "round_half_even x = \<lfloor>x\<rfloor> + 1" by (simp add: round_half_even_def Let_def)
    with 2 hi show ?thesis by simp
  next
    case 3
    then have "round_half_even x = \<lfloor>x\<rfloor>" by (simp add: round_half_even_def Let_def)
    with 3 show ?thesis by simp
  next
    case 4
    then have "round_half_even x = \<lfloor>x\<rfloor> + 1" by (simp add: round_half_even_def Let_def)
    with 4 show ?thesis by simp
  qed
qed

lemma py_round_4:
  "\<exists>k. py_round a 4 = of_int k / 10000 \<and> \<bar>of_int k / 10000 - a\<bar> \<le> 1 / 20000 \<and>
       (\<bar>of_int k / 10000 - a\<bar> = 1 / 20000 \<longrightarrow> even k)"
proof -
  define k where "k = round_half_even (a * 10000)"
  have p: "py_round a 4 = of_int k / 10000" by (simp add: py_round_def k_def)
  have d: "\<bar>of_int k / 10000 - a\<bar> = \<bar>of_int k - a * 10000\<bar> / 10000"
    by (simp add: field_simps)
  from round_half_even_near [of "a * 10000"] have
    n: "\<bar>of_int k - a * 10000\<bar> \<le> 1 / 2"
    and e: "\<bar>of_int k - a * 10000\<bar> = 1 / 2 \<longrightarrow> even k"
    by (simp_all add: k_def)
  from n have "\<bar>of_int k / 10000 - a\<bar> \<le> 1 / 20000" unfolding d by simp
  moreover from e have "\<bar>of_int k / 10000 - a\<bar> = 1 / 20000 \<longrightarrow> even k"
    unfolding d by simp
  ultimately show ?thesis using p by blast
qed

lemma py_round_examples:
  "py_round (1 / 32) 4 = 312 / 10000" "py_round (3 / 32) 4 = 938 / 10000"
  "py_round (60653 / 1000000) 4 = 607 / 10000"
  by (simp_all add: py_round_def round_half_even_def Let_def)

lemma tick_initial: "\<exists>tm. tick initial = Inr tm"
  using ticks_from_initial [of 1] by (auto split: sum.splits)

text \<open>
  C8. The cap of the angle feed. Appending a sample never leaves more than 1000
  entries; appended to a feed of exactly 1000 entries, it drops the oldest entry and
  nothing else; 1001 samples appended one by one to an empty feed leave the last
  1000 of them, so the first is gone. An iteration of the simulator whose tick
  completes and whose feed write works stores the old feed (empty when the file
  cannot be read) with the sample appended this way, the sample being the clock in
  milliseconds and the new angle rounded to 4 decimal places; and no iteration,
  whatever happens in it, takes a feed of at most 1000 entries above 1000. Rounded
  to 4 decimal places means: an integer number of ten-thousandths, at most half a
  ten-thousandth away from the angle, and the even one of the two when the angle is
  exactly halfway.
\<close>

theorem feed_cap:
  "length (feed_append xs e) \<le> 1000 \<and>
   (length xs = 1000 \<longrightarrow> feed_append xs e = tl xs @ [e]) \<and>
   (length es = 1001 \<longrightarrow>
      foldl feed_append [] es = tl es \<and> length (foldl feed_append [] es) = 1000) \<and>
   (telemetry_file w = Some tm0 \<and> tick tm0 = Inr tm \<and> feed_write_ok h \<longrightarrow>
      angle_feed_file (snd (sim_iteration h w)) =
        Some (feed_append (case angle_feed_file w of None \<Rightarrow> [] | Some l \<Rightarrow> l)
                \<lparr> timestamp = now_ms h, feed_angle = py_round (get_or (angle tm) 0) 4 \<rparr>)) \<and>
   ((case angle_feed_file w of None \<Rightarrow> True | Some l \<Rightarrow> length l \<le> 1000) \<longrightarrow>
      (case angle_feed_file (snd (sim_iteration h w)) of
         None \<Rightarrow> True | Some l \<Rightarrow> length l \<le> 1000)) \<and>
   (\<exists>k. py_round a 4 = of_int k / 10000 \<and> \<bar>of_int k / 10000 - a\<bar> \<le> 1 / 20000 \<and>
        (\<bar>of_int k / 10000 - a\<bar> = 1 / 20000 \<longrightarrow> even k))"
proof (intro conjI impI)
  show "length (feed_append xs e) \<le> 1000" by (rule length_feed_append)
next
  assume "length xs = 1000"
  then show "feed_append xs e = tl xs @ [e]" by (rule feed_append_full)
next
  assume a: "length es = 1001"
  then show "foldl feed_append [] es = tl es" by (rule feed_after_1001)
  with a show "length (foldl feed_append [] es) = 1000" by simp
next
  assume "telemetry_file w = Some tm0 \<and> tick tm0 = Inr tm \<and> feed_write_ok h"
  then show "angle_feed_file (snd (sim_iteration h w)) =
        Some (feed_append (case angle_feed_file w of None \<Rightarrow> [] | Some l \<Rightarrow> l)
                \<lparr> timestamp = now_ms h, feed_angle = py_round (get_or (angle tm) 0) 4 \<rparr>)"
    by (simp add: sim_iteration_feed)
next
  assume a: "case angle_feed_file w of None \<Rightarrow> True | Some l \<Rightarrow> length l \<le> 1000"
  from sim_iteration_feed_cases [of h w] a
  show "case angle_feed_file (snd (sim_iteration h w)) of
         None \<Rightarrow> True | Some l \<Rightarrow> length l \<le> 1000"
    by (auto simp add: length_feed_append)
next
  show "\<exists>k. py_round a 4 = of_int k / 10000 \<and> \<bar>of_int k / 10000 - a\<bar> \<le> 1 / 20000 \<and>
        (\<bar>of_int k / 10000 - a\<bar> = 1 / 20000 \<longrightarrow> even k)"
    by (rule py_round_4)
qed

theorem feed_cap_witness:
  "length (feed_append (numbered_samples 1000) \<lparr> timestamp = 1000, feed_angle = 0 \<rparr>) \<le> 1000 \<and>
   feed_append (numbered_samples 1000) \<lparr> timestamp = 1000, feed_angle = 0 \<rparr> =
     tl (numbered_samples 1000) @ [\<lparr> timestamp = 1000, feed_angle = 0 \<rparr>] \<and>
   foldl feed_append [] (numbered_samples 1001) = tl (numbered_samples 1001) \<and>
   length (foldl feed_append [] (numbered_samples 1001)) = 1000 \<and>
   (\<exists>tm. tick initial = Inr tm \<and>
      angle_feed_file (snd (sim_iteration good_sim_host full_feed_world)) =
        Some (tl (numbered_samples 1000) @
              [\<lparr> timestamp = 1700000000000, feed_angle = py_round (get_or (angle tm) 0) 4 \<rparr>]) \<and>
      (case angle_feed_file (snd (sim_iteration good_sim_host full_feed_world)) of
         None \<Rightarrow> True | Some l \<Rightarrow> length l \<le> 1000)) \<and>
   (\<exists>k. py_round (1 / 32) 4 = of_int k / 10000 \<and>
        \<bar>of_int k / 10000 - 1 / 32 :: real\<bar> \<le> 1 / 20000 \<and>
        (\<bar>of_int k / 10000 - 1 / 32 :: real\<bar> = 1 / 20000 \<longrightarrow> even k)) \<and>
   py_round (1 / 32) 4 = 312 / 10000 \<and> py_round (3 / 32) 4 = 938 / 10000 \<and>
   py_round (60653 / 1000000) 4 = 607 / 10000"
proof -
  have l0: "length (numbered_samples 1000) = 1000" "length (numbered_samples 1001) = 1001"
    by (simp_all add: numbered_samples_def)
  from tick_initial obtain tm where t: "tick initial = Inr tm" by blast
  have w: "telemetry_file full_feed_world = Some initial"
    "angle_feed_file full_feed_world = Some (numbered_samples 1000)"
    "feed_write_ok good_sim_host" "now_ms good_sim_host = 1700000000000"
    by (simp_all add: full_feed_world_def good_sim_host_def)
  note f = feed_cap [where xs = "numbered_samples 1000"
      and e = "\<lparr> timestamp = 1000, feed_angle = 0 \<rparr>" and es = "numbered_samples 1001"
      and w = full_feed_world and ?tm0.0 = initial and tm = tm and h = good_sim_host
      and a = "1 / 32"]
  from f l0 have a: "length (feed_append (numbered_samples 1000)
        \<lparr> timestamp = 1000, feed_angle = 0 \<rparr>) \<le> 1000"
    and b: "feed_append (numbered_samples 1000) \<lparr> timestamp = 1000, feed_angle = 0 \<rparr> =
      tl (numbered_samples 1000) @ [\<lparr> timestamp = 1000, feed_angle = 0 \<rparr>]"
    and c: "foldl feed_append [] (numbered_samples 1001) = tl (numbered_samples 1001)"
      "length (foldl feed_append [] (numbered_samples 1001)) = 1000"
    by blast+
  from f t w have d: "angle_feed_file (snd (sim_iteration good_sim_host full_feed_world)) =
        Some (feed_append (numbered_samples 1000)
                \<lparr> timestamp = 1700000000000, feed_angle = py_round (get_or (angle tm) 0) 4 \<rparr>)"
    by simp
  have d': "feed_append (numbered_samples 1000)
                \<lparr> timestamp = 1700000000000, feed_angle = py_round (get_or (angle tm) 0) 4 \<rparr> =
     tl (numbered_samples 1000) @
       [\<lparr> timestamp = 1700000000000, feed_angle = py_round (get_or (angle tm) 0) 4 \<rparr>]"
    using feed_append_full [OF l0(1)] .
  from f w l0 have e: "case angle_feed_file (snd (sim_iteration good_sim_host full_feed_world)) of
         None \<Rightarrow> True | Some l \<Rightarrow> length l \<le> 1000"
    by simp
  note g = f [THEN conjunct2, THEN conjunct2, THEN conjunct2, THEN conjunct2, THEN conjunct2]
  from d d' e t have dd: "(\<exists>tm. tick initial = Inr tm \<and>
      angle_feed_file (snd (sim_iteration good_sim_host full_feed_world)) =
        Some (tl (numbered_samples 1000) @
              [\<lparr> timestamp = 1700000000000, feed_angle = py_round (get_or (angle tm) 0) 4 \<rparr>]) \<and>
      (case angle_feed_file (snd (sim_iteration good_sim_host full_feed_world)) of
         None \<Rightarrow> True | Some l \<Rightarrow> length l \<le> 1000))"
    by auto
  show ?thesis
    by (intro conjI; fact a b c dd g py_round_examples)
qed

end
